theory Spec2Isabelle
  imports Complex_Main "HOL-Library.Sublist"
begin

section \<open>Python values, truthiness and exceptions\<close>

text \<open>
  The two tools (\<^verbatim>\<open>getref.py\<close>, \<^verbatim>\<open>analyze_refs.py\<close>) are duck-typed: a field of a search
  result or of a retrieved abstract is \<^verbatim>\<open>None\<close>, a string or an integer, and the code
  decides by truthiness. Strings are lists of 8-bit characters read as the code points
  0..255 (Latin-1), which is where the whitespace and case tables below come from.
  An attribute that an object does not have at all (\<^verbatim>\<open>hasattr\<close> is false) is the
  outer \<open>None\<close> of a \<open>pyval option\<close>.
\<close>

datatype pyval = PyNone | PyStr string | PyInt int

datatype error =
    AttributeError | ValueError | TypeError | IndexError | ZeroDivisionError
  | Scopus404Error | RemoteError

fun truthy :: "pyval \<Rightarrow> bool" where
  "truthy PyNone = False"
| "truthy (PyStr s) = (s \<noteq> [])"
| "truthy (PyInt n) = (n \<noteq> 0)"

text \<open>\<^verbatim>\<open>hasattr(obj, 'f') and obj.f\<close>, as a condition.\<close>

fun has_truthy :: "pyval option \<Rightarrow> bool" where
  "has_truthy None = False"
| "has_truthy (Some v) = truthy v"

text \<open>\<^verbatim>\<open>obj.f if hasattr(obj, 'f') else None\<close>.\<close>

fun attr_or_none :: "pyval option \<Rightarrow> pyval" where
  "attr_or_none None = PyNone"
| "attr_or_none (Some v) = v"

text \<open>\<^verbatim>\<open>x if x else None\<close>.\<close>

definition or_none :: "pyval \<Rightarrow> pyval" where
  "or_none v = (if truthy v then v else PyNone)"

subsection \<open>Formatting: \<^verbatim>\<open>str()\<close> and f-strings\<close>

definition digit_char :: "nat \<Rightarrow> char" where
  "digit_char d = ''0123456789'' ! d"

fun show_nat :: "nat \<Rightarrow> string" where
  "show_nat n =
     (if n < 10 then [digit_char n] else show_nat (n div 10) @ [digit_char (n mod 10)])"

definition show_int :: "int \<Rightarrow> string" where
  "show_int i = (if i < 0 then CHR ''-'' # show_nat (nat (- i)) else show_nat (nat i))"

fun py_str :: "pyval \<Rightarrow> string" where
  "py_str PyNone = ''None''"
| "py_str (PyStr s) = s"
| "py_str (PyInt n) = show_int n"

subsection \<open>String methods\<close>

text \<open>\<^verbatim>\<open>str.isspace\<close> on the code points below 256.\<close>

definition py_isspace :: "char \<Rightarrow> bool" where
  "py_isspace c =
     (let n = (of_char c :: nat)
      in (9 \<le> n \<and> n \<le> 13) \<or> (28 \<le> n \<and> n \<le> 32) \<or> n = 133 \<or> n = 160)"

text \<open>\<^verbatim>\<open>s.strip()\<close>.\<close>

definition py_strip :: "string \<Rightarrow> string" where
  "py_strip s = rev (dropWhile py_isspace (rev (dropWhile py_isspace s)))"

text \<open>
  \<^verbatim>\<open>s.split(sep)\<close> for a non-empty separator: the text is cut at the leftmost
  occurrences of \<open>sep\<close>, empty pieces are kept, and there is always at least one piece.
  \<open>cur\<close> is the piece being read, reversed.
\<close>

fun split_str :: "string \<Rightarrow> string \<Rightarrow> string \<Rightarrow> string list" where
  "split_str sep cur [] = [rev cur]"
| "split_str sep cur (c # cs) =
     (if sep \<noteq> [] \<and> prefix sep (c # cs)
      then rev cur # split_str sep [] (drop (length sep) (c # cs))
      else split_str sep (c # cur) cs)"

definition py_split :: "string \<Rightarrow> string \<Rightarrow> string list" where
  "py_split sep s = split_str sep [] s"

text \<open>\<^verbatim>\<open>s.split()\<close>: the maximal runs of non-whitespace characters.\<close>

fun split_ws :: "string \<Rightarrow> string \<Rightarrow> string list" where
  "split_ws cur [] = (if cur = [] then [] else [rev cur])"
| "split_ws cur (c # cs) =
     (if py_isspace c
      then (if cur = [] then split_ws [] cs else rev cur # split_ws [] cs)
      else split_ws (c # cur) cs)"

definition py_words :: "string \<Rightarrow> string list" where
  "py_words s = split_ws [] s"

text \<open>\<^verbatim>\<open>sep.join(xs)\<close> on a list of strings.\<close>

fun py_join :: "string \<Rightarrow> string list \<Rightarrow> string" where
  "py_join sep [] = []"
| "py_join sep [x] = x"
| "py_join sep (x # y # ys) = x @ sep @ py_join sep (y # ys)"

text \<open>\<^verbatim>\<open>sub in s\<close> on strings.\<close>

fun py_in :: "string \<Rightarrow> string \<Rightarrow> bool" where
  "py_in sub [] = (sub = [])"
| "py_in sub (c # cs) = (prefix sub (c # cs) \<or> py_in sub cs)"

text \<open>\<^verbatim>\<open>s.lower()\<close>: A..Z and the Latin-1 capitals (all of 192..222 but the
  multiplication sign 215) move up by 32.\<close>

definition lower_char :: "char \<Rightarrow> char" where
  "lower_char c =
     (let n = (of_char c :: nat)
      in if (65 \<le> n \<and> n \<le> 90) \<or> (192 \<le> n \<and> n \<le> 222 \<and> n \<noteq> 215)
         then char_of (n + 32) else c)"

definition py_lower :: "string \<Rightarrow> string" where
  "py_lower s = map lower_char s"

subsection \<open>\<^verbatim>\<open>int(s)\<close> on a string\<close>

text \<open>
  \<^verbatim>\<open>int\<close> skips the whitespace it knows at both ends (not the separators 28..31 that
  \<^verbatim>\<open>strip\<close> removes), reads an optional sign and then decimal digits, where one
  underscore may stand between two digits. A literal of more than
  \<^verbatim>\<open>sys.int_max_str_digits\<close> (4300) digits is refused. Every other text raises
  \<^verbatim>\<open>ValueError\<close>, which is \<open>None\<close> here.
\<close>

definition int_isspace :: "char \<Rightarrow> bool" where
  "int_isspace c =
     (let n = (of_char c :: nat)
      in (9 \<le> n \<and> n \<le> 13) \<or> n = 32 \<or> n = 133 \<or> n = 160)"

definition is_digit :: "char \<Rightarrow> bool" where
  "is_digit c = (let n = (of_char c :: nat) in 48 \<le> n \<and> n \<le> 57)"

definition digit_val :: "char \<Rightarrow> nat" where
  "digit_val c = of_char c - 48"

fun py_digits :: "nat \<Rightarrow> string \<Rightarrow> nat option" where
  "py_digits acc [] = Some acc"
| "py_digits acc [c] = (if is_digit c then Some (10 * acc + digit_val c) else None)"
| "py_digits acc (c # d # cs) =
     (if is_digit c then py_digits (10 * acc + digit_val c) (d # cs)
      else if c = CHR ''_'' \<and> is_digit d then py_digits (10 * acc + digit_val d) cs
      else None)"

fun py_unsigned :: "string \<Rightarrow> nat option" where
  "py_unsigned [] = None"
| "py_unsigned (c # cs) = (if is_digit c then py_digits (digit_val c) cs else None)"

definition int_max_str_digits :: nat where
  "int_max_str_digits = 4300"

definition py_int :: "string \<Rightarrow> int option" where
  "py_int s =
     (let t = rev (dropWhile int_isspace (rev (dropWhile int_isspace s)))
      in if int_max_str_digits < length (filter is_digit t) then None
         else (case t of
                 [] \<Rightarrow> None
               | c # cs \<Rightarrow>
                   if c = CHR ''-'' then map_option (\<lambda>n. - int n) (py_unsigned cs)
                   else if c = CHR ''+'' then map_option int (py_unsigned cs)
                   else map_option int (py_unsigned t)))"

text \<open>\<^verbatim>\<open>int(v)\<close> on a value: an integer is itself, a string is parsed, \<^verbatim>\<open>None\<close>
  is a \<^verbatim>\<open>TypeError\<close>.\<close>

fun py_int_of :: "pyval \<Rightarrow> error + int" where
  "py_int_of PyNone = Inl TypeError"
| "py_int_of (PyInt n) = Inr n"
| "py_int_of (PyStr s) = (case py_int s of None \<Rightarrow> Inl ValueError | Some n \<Rightarrow> Inr n)"

text \<open>\<^verbatim>\<open>v.split(sep)\<close> on a value: only a string has the method.\<close>

fun split_of :: "string \<Rightarrow> pyval \<Rightarrow> error + string list" where
  "split_of sep (PyStr s) = Inr (py_split sep s)"
| "split_of sep v = Inl AttributeError"

text \<open>Sequencing of steps that may raise: the first exception ends the block.\<close>

definition py_bind :: "error + 'a \<Rightarrow> ('a \<Rightarrow> error + 'b) \<Rightarrow> error + 'b" where
  "py_bind m f = (case m of Inl e \<Rightarrow> Inl e | Inr x \<Rightarrow> f x)"

text \<open>\<^verbatim>\<open>xs[i]\<close> for \<open>i \<ge> 0\<close>.\<close>

definition py_index :: "'a list \<Rightarrow> nat \<Rightarrow> error + 'a" where
  "py_index xs i = (if i < length xs then Inr (xs ! i) else Inl IndexError)"

text \<open>A comprehension or loop whose body may raise: the first exception ends it.\<close>

fun map_raise :: "('a \<Rightarrow> error + 'b) \<Rightarrow> 'a list \<Rightarrow> error + 'b list" where
  "map_raise f [] = Inr []"
| "map_raise f (x # xs) =
     py_bind (f x) (\<lambda>y. py_bind (map_raise f xs) (\<lambda>ys. Inr (y # ys)))"

section \<open>The data of \<^verbatim>\<open>getref.py\<close>\<close>

text \<open>
  An entry of \<^verbatim>\<open>ScopusSearch(...).results\<close>, with the attributes the code reads. The
  stub normalizer guards every read with \<^verbatim>\<open>hasattr\<close>, so each attribute may be
  missing (\<open>None\<close>) or present with a value (\<open>Some v\<close>, where \<open>v\<close> may be \<^verbatim>\<open>None\<close>).
\<close>

record search_result =
  r_eid :: "pyval option"
  r_doi :: "pyval option"
  r_title :: "pyval option"
  r_publicationName :: "pyval option"
  r_coverDate :: "pyval option"
  r_volume :: "pyval option"
  r_issueIdentifier :: "pyval option"
  r_pageRange :: "pyval option"
  r_citedby_count :: "pyval option"
  r_aggregationType :: "pyval option"
  r_issn :: "pyval option"
  r_source_id :: "pyval option"
  r_author_names :: "pyval option"

text \<open>An author of \<^verbatim>\<open>AbstractRetrieval(...).authors\<close>; \<^verbatim>\<open>auid\<close> and
  \<^verbatim>\<open>affiliation\<close> are read under \<^verbatim>\<open>hasattr\<close>.\<close>

record retrieved_author =
  au_given_name :: pyval
  au_surname :: pyval
  au_auid :: "pyval option"
  au_affiliation :: "pyval option"

text \<open>The object \<^verbatim>\<open>AbstractRetrieval(eid, view='FULL')\<close> returns. An \<^verbatim>\<open>authors\<close>
  attribute that is \<^verbatim>\<open>None\<close> is the empty list here: the code only tests its truth.\<close>

record abstract_retrieval =
  a_authors :: "retrieved_author list"
  a_authkeywords :: pyval
  a_doi :: pyval
  a_title :: pyval
  a_abstract :: pyval
  a_publicationName :: pyval
  a_coverDate :: pyval
  a_volume :: pyval
  a_issueIdentifier :: pyval
  a_pageRange :: pyval
  a_citedby_count :: pyval
  a_aggregationType :: pyval
  a_issn :: pyval
  a_isbn :: pyval
  a_publisher :: pyval
  a_source_id :: pyval

text \<open>The author dictionary and the publication dictionary that both tiers build and
  that \<^verbatim>\<open>analyze_refs.py\<close> reads back from JSON (\<open>None\<close> is JSON \<^verbatim>\<open>null\<close>).\<close>

record author =
  name :: pyval
  surname :: pyval
  given_name :: pyval
  author_id :: pyval
  affiliation :: pyval

record publication =
  eid :: pyval
  doi :: pyval
  title :: pyval
  abstract :: pyval
  journal :: pyval
  year :: "int option"
  date :: pyval
  volume :: pyval
  issue :: pyval
  pages :: pyval
  citation_count :: "int option"
  document_type :: pyval
  issn :: pyval
  isbn :: pyval
  publisher :: pyval
  source_id :: pyval
  keywords_list :: "string list"
  authors :: "author list"
  url :: string

section \<open>\<^verbatim>\<open>extract_from_search_result\<close>: the stub normalizer\<close>

text \<open>\<^verbatim>\<open>int(d.split('-')[0])\<close>, the year of a cover date.\<close>

definition cover_year :: "pyval \<Rightarrow> error + int" where
  "cover_year d =
     py_bind (split_of ''-'' d) (\<lambda>parts.
     py_bind (py_index parts 0) (\<lambda>y. py_int_of (PyStr y)))"

definition search_year :: "search_result \<Rightarrow> error + int option" where
  "search_year result =
     (if has_truthy (r_coverDate result)
      then py_bind (cover_year (attr_or_none (r_coverDate result))) (\<lambda>y. Inr (Some y))
      else Inr None)"

definition search_citation_count :: "search_result \<Rightarrow> error + int" where
  "search_citation_count result =
     (if has_truthy (r_citedby_count result)
      then py_int_of (attr_or_none (r_citedby_count result))
      else Inr 0)"

text \<open>The body of the loop over \<^verbatim>\<open>result.author_names.split(';')\<close>.\<close>

definition parse_author_name :: "string \<Rightarrow> error + author" where
  "parse_author_name fragment =
     (let author_name = py_strip fragment in
      if py_in '','' author_name
      then (let parts = py_split '','' author_name in
            py_bind (py_index parts 0) (\<lambda>p0.
            py_bind (if 1 < length parts
                     then py_bind (py_index parts 1) (\<lambda>p1. Inr (py_strip p1))
                     else Inr []) (\<lambda>given.
            Inr \<lparr>name = PyStr author_name, surname = PyStr (py_strip p0),
                 given_name = PyStr given, author_id = PyNone, affiliation = PyNone\<rparr>)))
      else (let parts = py_words author_name in
            Inr \<lparr>name = PyStr author_name,
                 surname = PyStr (if parts \<noteq> [] then last parts else author_name),
                 given_name =
                   PyStr (if 1 < length parts then py_join '' '' (butlast parts) else []),
                 author_id = PyNone, affiliation = PyNone\<rparr>))"

definition search_authors :: "search_result \<Rightarrow> error + author list" where
  "search_authors result =
     (if has_truthy (r_author_names result)
      then py_bind (split_of '';'' (attr_or_none (r_author_names result)))
             (map_raise parse_author_name)
      else Inr [])"

definition doi_url :: "pyval \<Rightarrow> pyval \<Rightarrow> string" where
  "doi_url d e =
     (if truthy d then ''https://doi.org/'' @ py_str d
      else ''https://www.scopus.com/record/display.uri?eid='' @ py_str e
             @ ''&origin=resultslist'')"

text \<open>The \<^verbatim>\<open>try\<close> block of the function: the dictionary literal (the year and the
  citation count are its two conversions), the authors, the URL.\<close>

definition search_record :: "search_result \<Rightarrow> error + publication" where
  "search_record result =
     py_bind (search_year result) (\<lambda>y.
     py_bind (search_citation_count result) (\<lambda>c.
     py_bind (search_authors result) (\<lambda>as.
     Inr \<lparr>eid = attr_or_none (r_eid result),
          doi = attr_or_none (r_doi result),
          title = attr_or_none (r_title result),
          abstract = PyNone,
          journal = attr_or_none (r_publicationName result),
          year = y,
          date = attr_or_none (r_coverDate result),
          volume = attr_or_none (r_volume result),
          issue = attr_or_none (r_issueIdentifier result),
          pages = attr_or_none (r_pageRange result),
          citation_count = Some c,
          document_type = attr_or_none (r_aggregationType result),
          issn = attr_or_none (r_issn result),
          isbn = PyNone,
          publisher = PyNone,
          source_id = attr_or_none (r_source_id result),
          keywords_list = [],
          authors = as,
          url = doi_url (attr_or_none (r_doi result)) (attr_or_none (r_eid result))\<rparr>)))"

text \<open>\<^verbatim>\<open>except Exception: return None\<close>.\<close>

definition extract_from_search_result :: "search_result \<Rightarrow> publication option" where
  "extract_from_search_result result =
     (case search_record result of Inl e \<Rightarrow> None | Inr record \<Rightarrow> Some record)"

section \<open>\<^verbatim>\<open>get_full_details\<close>: the detail fetcher\<close>

definition full_author :: "retrieved_author \<Rightarrow> author" where
  "full_author a =
     \<lparr>name = (if truthy (au_given_name a)
               then PyStr (py_str (au_given_name a) @ '' '' @ py_str (au_surname a))
               else au_surname a),
      surname = au_surname a,
      given_name = au_given_name a,
      author_id = attr_or_none (au_auid a),
      affiliation = attr_or_none (au_affiliation a)\<rparr>"

definition full_keywords :: "pyval \<Rightarrow> error + string list" where
  "full_keywords raw =
     (if truthy raw
      then py_bind (split_of '' | '' raw) (\<lambda>parts. Inr (map py_strip parts))
      else Inr [])"

text \<open>Everything of the \<^verbatim>\<open>try\<close> block after the remote call has returned.\<close>

definition full_record :: "pyval \<Rightarrow> abstract_retrieval \<Rightarrow> error + publication" where
  "full_record e a =
     py_bind (full_keywords (a_authkeywords a)) (\<lambda>kws.
     py_bind (if truthy (a_coverDate a)
              then py_bind (cover_year (a_coverDate a)) (\<lambda>y. Inr (Some y))
              else Inr None) (\<lambda>y.
     py_bind (if truthy (a_citedby_count a) then py_int_of (a_citedby_count a) else Inr 0)
       (\<lambda>c.
     Inr \<lparr>eid = e,
          doi = or_none (a_doi a),
          title = a_title a,
          abstract = or_none (a_abstract a),
          journal = or_none (a_publicationName a),
          year = y,
          date = or_none (a_coverDate a),
          volume = or_none (a_volume a),
          issue = or_none (a_issueIdentifier a),
          pages = or_none (a_pageRange a),
          citation_count = Some c,
          document_type = or_none (a_aggregationType a),
          issn = or_none (a_issn a),
          isbn = or_none (a_isbn a),
          publisher = or_none (a_publisher a),
          source_id = or_none (a_source_id a),
          keywords_list = kws,
          authors = map full_author (a_authors a),
          url = doi_url (a_doi a) e\<rparr>)))"

text \<open>
  The remote call \<^verbatim>\<open>AbstractRetrieval(eid, view='FULL')\<close> is the parameter \<open>retrieval\<close>: it
  answers with the object or raises (not found, network, time-out). The bare
  \<^verbatim>\<open>except:\<close> turns every exception of the block into the return value \<^verbatim>\<open>None\<close>; the
  result type still has room for an exception that would leave the function.
\<close>

definition get_full_details ::
  "(pyval \<Rightarrow> error + abstract_retrieval) \<Rightarrow> pyval \<Rightarrow> error + publication option" where
  "get_full_details retrieval e =
     (case py_bind (retrieval e) (full_record e) of
        Inl err \<Rightarrow> Inr None
      | Inr record \<Rightarrow> Inr (Some record))"

section \<open>\<^verbatim>\<open>search_and_download\<close>: the reconciliation driver\<close>

text \<open>
  The variables of the loop. \<open>requested\<close> is not a variable of the source: it records the
  effect of line 268, the identifiers handed to \<^verbatim>\<open>get_full_details\<close> (one remote call
  each), in call order.
\<close>

record loop_state =
  publications :: "publication list"
  full_details_count :: nat
  search_only_count :: nat
  failed_count :: nat
  requested :: "pyval list"

definition init_state :: loop_state where
  "init_state =
     \<lparr>publications = [], full_details_count = 0, search_only_count = 0,
      failed_count = 0, requested = []\<rparr>"

text \<open>
  One iteration: the state it leaves and the exception that ended it, if any.
  \<^verbatim>\<open>result.eid\<close> is read without \<^verbatim>\<open>hasattr\<close>, so a result that lacks the attribute
  raises here, outside the \<^verbatim>\<open>try\<close> of \<^verbatim>\<open>get_full_details\<close>. A publication dictionary
  has nineteen keys and is true, so \<^verbatim>\<open>if details:\<close> tests for \<^verbatim>\<open>None\<close>.
\<close>

definition loop_body ::
  "(pyval \<Rightarrow> error + abstract_retrieval) \<Rightarrow> loop_state \<Rightarrow> search_result
     \<Rightarrow> loop_state \<times> error option" where
  "loop_body retrieval st result =
     (case r_eid result of
        None \<Rightarrow> (st, Some AttributeError)
      | Some e \<Rightarrow>
          (let st1 = st\<lparr>requested := requested st @ [e]\<rparr> in
           case get_full_details retrieval e of
             Inl err \<Rightarrow> (st1, Some err)
           | Inr (Some details) \<Rightarrow>
               (st1\<lparr>full_details_count := full_details_count st1 + 1,
                    publications := publications st1 @ [details]\<rparr>, None)
           | Inr None \<Rightarrow>
               (case extract_from_search_result result of
                  Some details \<Rightarrow>
                    (st1\<lparr>search_only_count := search_only_count st1 + 1,
                         publications := publications st1 @ [details]\<rparr>, None)
                | None \<Rightarrow> (st1\<lparr>failed_count := failed_count st1 + 1\<rparr>, None))))"

fun run_loop ::
  "(pyval \<Rightarrow> error + abstract_retrieval) \<Rightarrow> loop_state \<Rightarrow> search_result list
     \<Rightarrow> loop_state \<times> error option" where
  "run_loop retrieval st [] = (st, None)"
| "run_loop retrieval st (result # rest) =
     (case loop_body retrieval st result of
        (st', Some err) \<Rightarrow> (st', Some err)
      | (st', None) \<Rightarrow> run_loop retrieval st' rest)"

text \<open>\<^verbatim>\<open>xs[:n]\<close>: a negative \<open>n\<close> counts from the end.\<close>

definition py_slice_to :: "int \<Rightarrow> 'a list \<Rightarrow> 'a list" where
  "py_slice_to n xs =
     (if 0 \<le> n then take (nat n) xs else take (length xs - nat (- n)) xs)"

text \<open>\<^verbatim>\<open>if limit: results = results[:limit]\<close>; no \<^verbatim>\<open>-limit\<close> option is \<open>None\<close>.\<close>

definition apply_limit :: "int option \<Rightarrow> 'a list \<Rightarrow> 'a list" where
  "apply_limit limit results =
     (case limit of
        None \<Rightarrow> results
      | Some n \<Rightarrow> if n \<noteq> 0 then py_slice_to n results else results)"

text \<open>
  What a call leaves behind: the list it returns, the loop's variables when it left the
  loop, and whether it reached the tally (lines 283 to 287), which prints the three
  counters. \<open>search\<close> is the outcome of \<^verbatim>\<open>ScopusSearch(...).results\<close>: an exception, or
  the list of results (\<^verbatim>\<open>None\<close> and the empty list are both \<open>[]\<close>).
\<close>

record outcome =
  returned :: "publication list"
  final :: loop_state
  completed :: bool

definition search_and_download ::
  "error + search_result list \<Rightarrow> (pyval \<Rightarrow> error + abstract_retrieval) \<Rightarrow> int option
     \<Rightarrow> outcome" where
  "search_and_download search retrieval limit =
     (case search of
        Inl err \<Rightarrow> \<lparr>returned = [], final = init_state, completed = False\<rparr>
      | Inr results \<Rightarrow>
          if results = []
          then \<lparr>returned = [], final = init_state, completed = False\<rparr>
          else (case run_loop retrieval init_state (apply_limit limit results) of
                  (st, Some err) \<Rightarrow> \<lparr>returned = [], final = st, completed = False\<rparr>
                | (st, None) \<Rightarrow>
                    \<lparr>returned = publications st, final = st, completed = True\<rparr>))"

section \<open>\<^verbatim>\<open>analyze_refs.py\<close>: the aggregate reporter\<close>

record metadata =
  total_publications :: int
  retrieved_at :: string

record data =
  data_metadata :: metadata
  data_publications :: "publication list"

text \<open>\<^verbatim>\<open>a / b\<close> on integers; the quotient is kept exact (the source's is a float that
  it prints with one decimal).\<close>

definition py_truediv :: "int \<Rightarrow> int \<Rightarrow> error + rat" where
  "py_truediv a b = (if b = 0 then Inl ZeroDivisionError else Inr (of_int a / of_int b))"

text \<open>\<^verbatim>\<open>Counter(xs).most_common()\<close>: the distinct values in first-seen order with their
  counts, sorted by falling count, ties in first-seen order.\<close>

definition most_common :: "'a list \<Rightarrow> ('a \<times> nat) list" where
  "most_common xs =
     sort_key (\<lambda>(x, c). - int c)
       (map (\<lambda>x. (x, count_list xs x)) (rev (remdups (rev xs))))"

record citation_statistics =
  total_citations :: int
  average_per_paper :: rat
  most_cited :: int
  median :: int

record summary =
  year_range :: "(int \<times> int) option"
  by_year :: "(int \<times> nat) list"
  citations_block :: "citation_statistics option"
  with_doi :: nat
  with_abstract :: nat
  with_keywords :: nat
  percent_doi :: rat
  percent_abstract :: rat
  percent_keywords :: rat
  document_types :: "(pyval \<times> nat) list"
  top_journals :: "(pyval \<times> nat) list"

text \<open>\<^verbatim>\<open>[p['citation_count'] for p in publications if p['citation_count'] is not None]\<close>.\<close>

definition citations_of :: "publication list \<Rightarrow> int list" where
  "citations_of pubs = concat (map (\<lambda>p. case citation_count p of None \<Rightarrow> [] | Some c \<Rightarrow> [c]) pubs)"

text \<open>\<^verbatim>\<open>[p['year'] for p in publications if p['year']]\<close>: \<^verbatim>\<open>null\<close> and 0 are false.\<close>

definition years_of :: "publication list \<Rightarrow> int list" where
  "years_of pubs =
     concat (map (\<lambda>p. case year p of None \<Rightarrow> [] | Some y \<Rightarrow> if y \<noteq> 0 then [y] else []) pubs)"

text \<open>The block under \<^verbatim>\<open>if citations:\<close>.\<close>

definition citation_block :: "int list \<Rightarrow> error + citation_statistics option" where
  "citation_block citations =
     (if citations \<noteq> []
      then py_bind (py_truediv (sum_list citations) (int (length citations))) (\<lambda>avg.
           py_bind (py_index (sort citations) (length citations div 2)) (\<lambda>m.
           Inr (Some \<lparr>total_citations = sum_list citations, average_per_paper = avg,
                      most_cited = Max (set citations), median = m\<rparr>)))
      else Inr None)"

text \<open>\<^verbatim>\<open>print_summary\<close>: what it prints, or the exception that ends it.\<close>

definition print_summary :: "data \<Rightarrow> error + summary" where
  "print_summary d =
     (let pubs = data_publications d;
          years = years_of pubs;
          n_doi = length (filter (\<lambda>p. truthy (doi p)) pubs);
          n_abstract = length (filter (\<lambda>p. truthy (abstract p)) pubs);
          n_keywords = length (filter (\<lambda>p. keywords_list p \<noteq> []) pubs)
      in
      py_bind (citation_block (citations_of pubs)) (\<lambda>cb.
      py_bind (py_truediv (100 * int n_doi) (int (length pubs))) (\<lambda>pd.
      py_bind (py_truediv (100 * int n_abstract) (int (length pubs))) (\<lambda>pa.
      py_bind (py_truediv (100 * int n_keywords) (int (length pubs))) (\<lambda>pk.
      Inr \<lparr>year_range = (if years \<noteq> [] then Some (Min (set years), Max (set years)) else None),
           by_year = map (\<lambda>y. (y, count_list years y)) (sort (remdups years)),
           citations_block = cb,
           with_doi = n_doi, with_abstract = n_abstract, with_keywords = n_keywords,
           percent_doi = pd, percent_abstract = pa, percent_keywords = pk,
           document_types =
             most_common (filter truthy (map document_type pubs)),
           top_journals =
             take 10 (most_common (filter truthy (map journal pubs)))\<rparr>)))))"

section \<open>\<^verbatim>\<open>export_bibtex\<close>\<close>

text \<open>\<^verbatim>\<open>v.lower()\<close>: only a string has the method.\<close>

fun lower_of :: "pyval \<Rightarrow> error + string" where
  "lower_of (PyStr s) = Inr (py_lower s)"
| "lower_of v = Inl AttributeError"

text \<open>The element type \<^verbatim>\<open>str.join\<close> insists on.\<close>

fun str_item :: "pyval \<Rightarrow> error + string" where
  "str_item (PyStr s) = Inr s"
| "str_item v = Inl TypeError"

definition pub_entry_type :: "publication \<Rightarrow> error + string" where
  "pub_entry_type pub =
     py_bind (if truthy (document_type pub) then lower_of (document_type pub)
              else Inr ''article'') (\<lambda>doc_type.
     Inr (if py_in ''conference'' doc_type then ''inproceedings''
          else if py_in ''book'' doc_type then ''book''
          else ''article''))"

text \<open>\<^verbatim>\<open>key = f"{first_author}{year}"\<close>.\<close>

definition citation_key :: "publication \<Rightarrow> string" where
  "citation_key pub =
     py_str (case authors pub of [] \<Rightarrow> PyStr ''Unknown'' | a # _ \<Rightarrow> surname a)
     @ (case year pub of
          None \<Rightarrow> ''nd''
        | Some y \<Rightarrow> if y \<noteq> 0 then show_int y else ''nd'')"

definition field_line :: "string \<Rightarrow> pyval \<Rightarrow> string" where
  "field_line label v =
     (if truthy v then ''  '' @ label @ '' = {'' @ py_str v @ ''},'' @ [CHR 0x0A] else [])"

text \<open>The body of the loop for the publication at the 1-based position \<open>i\<close>.\<close>

definition bibtex_entry :: "nat \<Rightarrow> publication \<Rightarrow> error + string" where
  "bibtex_entry i pub =
     py_bind (pub_entry_type pub) (\<lambda>entry_type.
     py_bind (if authors pub \<noteq> []
              then py_bind (map_raise (\<lambda>a. str_item (name a)) (authors pub)) (\<lambda>names.
                   Inr (''  author = {'' @ py_join '' and '' names @ ''},'' @ [CHR 0x0A]))
              else Inr []) (\<lambda>author_line.
     Inr (''@'' @ entry_type @ ''{'' @ citation_key pub @ show_nat i @ '','' @ [CHR 0x0A]
          @ field_line ''title'' (title pub)
          @ author_line
          @ field_line ''journal'' (journal pub)
          @ (case year pub of
               None \<Rightarrow> []
             | Some y \<Rightarrow> field_line ''year'' (PyInt y))
          @ field_line ''volume'' (volume pub)
          @ field_line ''number'' (issue pub)
          @ field_line ''pages'' (pages pub)
          @ field_line ''doi'' (doi pub)
          @ ''}'' @ [CHR 0x0A])))"

text \<open>\<^verbatim>\<open>for i, pub in enumerate(publications, 1)\<close>, from position \<open>i\<close> on.\<close>

fun bibtex_entries :: "nat \<Rightarrow> publication list \<Rightarrow> error + string list" where
  "bibtex_entries i [] = Inr []"
| "bibtex_entries i (pub # rest) =
     py_bind (bibtex_entry i pub) (\<lambda>b.
     py_bind (bibtex_entries (Suc i) rest) (\<lambda>bs. Inr (b # bs)))"

text \<open>The list \<^verbatim>\<open>output\<close>; the text written is \<open>py_join [CHR 0x0A] output\<close>.\<close>

definition export_bibtex :: "publication list \<Rightarrow> error + string list" where
  "export_bibtex pubs = bibtex_entries 1 pubs"

section \<open>The invariant of the driver's loop\<close>

text \<open>Every publication collected was counted by one of the two tiers, and every request
  made was counted by one of the three counters.\<close>

definition tally_ok :: "loop_state \<Rightarrow> bool" where
  "tally_ok st \<longleftrightarrow>
     length (publications st) = full_details_count st + search_only_count st \<and>
     full_details_count st + search_only_count st + failed_count st
       = length (requested st)"

section \<open>Auxiliary notions of the statements\<close>

text \<open>The number a string of decimal digits writes.\<close>

definition decimal :: "string \<Rightarrow> nat" where
  "decimal ds = foldl (\<lambda>a c. 10 * a + digit_val c) 0 ds"


text \<open>The publications \<^verbatim>\<open>export_bibtex\<close> can format: the document type is a string or
  false, and every author's name is a string.\<close>

definition exportable :: "publication \<Rightarrow> bool" where
  "exportable pub \<longleftrightarrow>
     (case document_type pub of PyInt n \<Rightarrow> n = 0 | _ \<Rightarrow> True) \<and>
     list_all (\<lambda>a. case name a of PyStr s \<Rightarrow> True | _ \<Rightarrow> False) (authors pub)"


section \<open>Sample inputs\<close>

text \<open>A search result as \<^verbatim>\<open>pybliometrics\<close> builds it: every attribute is there, and
  all but the identifier are \<^verbatim>\<open>None\<close>.\<close>

definition stub :: "string \<Rightarrow> search_result" where
  "stub e =
     \<lparr>r_eid = Some (PyStr e), r_doi = Some PyNone, r_title = Some PyNone,
      r_publicationName = Some PyNone, r_coverDate = Some PyNone, r_volume = Some PyNone,
      r_issueIdentifier = Some PyNone, r_pageRange = Some PyNone,
      r_citedby_count = Some PyNone, r_aggregationType = Some PyNone,
      r_issn = Some PyNone, r_source_id = Some PyNone, r_author_names = Some PyNone\<rparr>"

text \<open>The answer of the detail view for one identifier.\<close>

definition sample_abstract :: abstract_retrieval where
  "sample_abstract =
     \<lparr>a_authors =
        [\<lparr>au_given_name = PyStr ''Erik'', au_surname = PyStr ''Bitzek'',
          au_auid = Some (PyInt 7), au_affiliation = None\<rparr>],
      a_authkeywords = PyStr ''steel |  | alloys'',
      a_doi = PyStr ''10.1/x'', a_title = PyStr ''Cracks'', a_abstract = PyStr ''We study.'',
      a_publicationName = PyStr ''Acta'', a_coverDate = PyStr ''2021-05-01'',
      a_volume = PyStr ''3'', a_issueIdentifier = PyNone, a_pageRange = PyNone,
      a_citedby_count = PyInt 12, a_aggregationType = PyStr ''Journal'',
      a_issn = PyNone, a_isbn = PyNone, a_publisher = PyNone, a_source_id = PyNone\<rparr>"

text \<open>A remote service that knows the identifier \<^verbatim>\<open>A\<close> only, and one that knows none.\<close>

definition sample_retrieval :: "pyval \<Rightarrow> error + abstract_retrieval" where
  "sample_retrieval e = (if e = PyStr ''A'' then Inr sample_abstract else Inl Scopus404Error)"

definition no_retrieval :: "pyval \<Rightarrow> error + abstract_retrieval" where
  "no_retrieval e = Inl Scopus404Error"

text \<open>Three results: \<^verbatim>\<open>A\<close> has a detail view, \<^verbatim>\<open>B\<close> has none, and \<^verbatim>\<open>C\<close> has none and a
  cover date that is no date.\<close>

definition sample_results :: "search_result list" where
  "sample_results =
     [stub ''A'',
      (stub ''B'')\<lparr>r_coverDate := Some (PyStr ''2019-11-30''),
                  r_author_names := Some (PyStr ''Smith, J.; Doe, A.;Erik Bitzek'')\<rparr>,
      (stub ''C'')\<lparr>r_coverDate := Some (PyStr ''abcd-01-01'')\<rparr>]"

text \<open>A publication with a citation count and nothing else.\<close>

definition pub_cited :: "int \<Rightarrow> publication" where
  "pub_cited c =
     \<lparr>eid = PyStr ''X'', doi = PyNone, title = PyNone, abstract = PyNone, journal = PyNone,
      year = None, date = PyNone, volume = PyNone, issue = PyNone, pages = PyNone,
      citation_count = Some c, document_type = PyNone, issn = PyNone, isbn = PyNone,
      publisher = PyNone, source_id = PyNone, keywords_list = [], authors = [],
      url = ''https://www.scopus.com/record/display.uri?eid=X&origin=resultslist''\<rparr>"

text \<open>Two publications without authors, the second one with a year and a document
  type.\<close>

definition sample_pubs :: "publication list" where
  "sample_pubs =
     [pub_cited 1,
      (pub_cited 3)\<lparr>year := Some 2020, document_type := PyStr ''Conference Proceeding''\<rparr>]"


section \<open>Exceptions in sequence\<close>

lemma py_bind_Inr [simp]: "py_bind (Inr x) f = f x"
  by (simp add: py_bind_def)

lemma py_bind_Inl [simp]: "py_bind (Inl e) f = Inl e"
  by (simp add: py_bind_def)

lemma py_bind_eq_Inr:
  "py_bind m f = Inr y \<longleftrightarrow> (\<exists>x. m = Inr x \<and> f x = Inr y)"
  by (cases m) simp_all

lemma py_bind_isl: "isl (py_bind m f) \<longleftrightarrow> isl m \<or> (\<exists>x. m = Inr x \<and> isl (f x))"
  by (cases m) auto

lemma map_raise_total:
  assumes "\<And>x. \<exists>y. f x = Inr y"
  shows "\<exists>ys. map_raise f xs = Inr ys \<and> length ys = length xs \<and>
           (\<forall>i < length xs. f (xs ! i) = Inr (ys ! i))"
proof (induction xs)
  case Nil
  then show ?case by simp
next
  case (Cons x xs)
  obtain y where y: "f x = Inr y" using assms by blast
  obtain ys where ys: "map_raise f xs = Inr ys" "length ys = length xs"
      "\<forall>i < length xs. f (xs ! i) = Inr (ys ! i)"
    using Cons by blast
  have "\<forall>i < length (x # xs). f ((x # xs) ! i) = Inr ((y # ys) ! i)"
    using y ys(3) by (auto simp: nth_Cons split: nat.split)
  then show ?case using y ys(1,2) by simp
qed

section \<open>Strings\<close>

lemma split_str_nonempty [simp]: "split_str sep cur s \<noteq> []"
  by (induction sep cur s rule: split_str.induct) auto

lemma py_split_nonempty [simp]: "py_split sep s \<noteq> []"
  by (simp add: py_split_def)

lemma py_join_Cons: "xs \<noteq> [] \<Longrightarrow> py_join sep (x # xs) = x @ sep @ py_join sep xs"
  by (cases xs) simp_all

lemma join_split_str: "py_join sep (split_str sep cur s) = rev cur @ s"
proof (induction sep cur s rule: split_str.induct)
  case (1 sep cur)
  then show ?case by simp
next
  case (2 sep cur c cs)
  show ?case
  proof (cases "sep \<noteq> [] \<and> prefix sep (c # cs)")
    case True
    then have "c # cs = sep @ drop (length sep) (c # cs)"
      by (metis append_eq_conv_conj prefix_def)
    then show ?thesis using True 2(1) by (simp add: py_join_Cons) 
  next
    case False
    then show ?thesis using 2(2) by auto
  qed
qed

lemma join_py_split: "py_join sep (py_split sep s) = s"
  by (simp add: py_split_def join_split_str)

lemma split_str_char:
  "split_str [c] cur s =
     (rev cur @ takeWhile (\<lambda>x. x \<noteq> c) s)
     # (case dropWhile (\<lambda>x. x \<noteq> c) s of [] \<Rightarrow> [] | _ # rest \<Rightarrow> split_str [c] [] rest)"
  by (induction s arbitrary: cur) auto

lemma py_split_char_hd:
  "py_index (py_split [c] s) 0 = Inr (takeWhile (\<lambda>x. x \<noteq> c) s)"
  by (subst py_split_def, subst split_str_char) (simp add: py_index_def)

lemma py_split_char_append:
  "c \<notin> set a \<Longrightarrow> py_split [c] (a @ c # b) = a # py_split [c] b"
  by (subst py_split_def, subst split_str_char) (simp add: py_split_def takeWhile_append dropWhile_append  takeWhile_eq_all_conv[THEN iffD2] dropWhile_eq_Nil_conv[THEN iffD2])

lemma py_in_char: "py_in [c] s \<longleftrightarrow> c \<in> set s"
  by (induction s) auto

lemma py_strip_trimmed:
  "py_strip s = [] \<or> (\<not> py_isspace (hd (py_strip s)) \<and> \<not> py_isspace (last (py_strip s)))"
proof -
  let ?a = "dropWhile py_isspace s"
  let ?b = "dropWhile py_isspace (rev ?a)"
  show ?thesis
  proof (cases "?b = []")
    case True
    then show ?thesis by (simp add: py_strip_def)
  next
    case False
    then have h: "\<not> py_isspace (hd ?b)" by (metis hd_dropWhile)
    have l: "last (rev ?b) = hd ?b" using False by (simp add: last_rev)
    have "?a \<noteq> []" using False by (metis dropWhile.simps(1) rev.simps(1))
    then have ha: "\<not> py_isspace (hd ?a)" by (metis hd_dropWhile)
    obtain us where us: "rev ?a = us @ ?b"
      by (metis takeWhile_dropWhile_id)
    then have "?a = rev ?b @ rev us" by (metis rev_append rev_rev_ident)
    then have "hd (rev ?b) = hd ?a" using False by (metis hd_append2 rev_is_Nil_conv)
    then show ?thesis using h l ha by (simp add: py_strip_def)
  qed
qed

lemma dropWhile_id: "xs = [] \<or> \<not> P (hd xs) \<Longrightarrow> dropWhile P xs = xs"
  by (cases xs) auto

lemma py_strip_idem: "py_strip (py_strip s) = py_strip s"
proof (cases "py_strip s = []")
  case True
  have e: "py_strip [] = []" by (simp add: py_strip_def)
  show ?thesis by (simp only: True e)
next
  case False
  then have t: "\<not> py_isspace (hd (py_strip s))" "\<not> py_isspace (last (py_strip s))"
    using py_strip_trimmed [of s] by auto
  have 1: "dropWhile py_isspace (py_strip s) = py_strip s"
    using t(1) by (intro dropWhile_id) simp
  have 2: "dropWhile py_isspace (rev (py_strip s)) = rev (py_strip s)"
    using t(2) False by (intro dropWhile_id) (simp add: hd_rev)
  show ?thesis
    by (subst py_strip_def) (simp add: 1 2)
qed

lemma split_ws_concat:
  "concat (split_ws cur s) = rev cur @ filter (\<lambda>c. \<not> py_isspace c) s"
  by (induction cur s rule: split_ws.induct) simp_all

lemma split_ws_tokens:
  "list_all (\<lambda>c. \<not> py_isspace c) cur \<Longrightarrow>
     list_all (\<lambda>w. w \<noteq> [] \<and> list_all (\<lambda>c. \<not> py_isspace c) w) (split_ws cur s)"
proof (induction cur s rule: split_ws.induct)
  case (1 cur)
  then show ?case by (simp add: list_all_rev)
next
  case (2 cur c cs)
  show ?case
  proof (cases "py_isspace c")
    case True
    then show ?thesis using 2 by (cases "cur = []") (simp_all add: list_all_rev)
  next
    case False
    then show ?thesis using 2 by simp
  qed
qed

text \<open>The tokens of \<^verbatim>\<open>s.split()\<close> are not empty, have no whitespace, and hold the other
  characters of \<open>s\<close> in order.\<close>

lemma py_words_tokens:
  "list_all (\<lambda>w. w \<noteq> [] \<and> list_all (\<lambda>c. \<not> py_isspace c) w) (py_words s) \<and>
   concat (py_words s) = filter (\<lambda>c. \<not> py_isspace c) s"
  using split_ws_tokens [of "[]" s] by (simp add: py_words_def split_ws_concat)

lemma py_digits_all:
  "list_all is_digit ds \<Longrightarrow> py_digits acc ds = Some (foldl (\<lambda>a c. 10 * a + digit_val c) acc ds)"
  by (induction acc ds rule: py_digits.induct) auto

lemma digit_not_space: "is_digit c \<Longrightarrow> \<not> int_isspace c"
  by (auto simp: is_digit_def int_isspace_def Let_def)

lemma digit_not_sign: "is_digit c \<Longrightarrow> c \<noteq> CHR ''-'' \<and> c \<noteq> CHR ''+''"
  by (auto simp: is_digit_def)

lemma dropWhile_all_not: "list_all (\<lambda>x. \<not> P x) xs \<Longrightarrow> dropWhile P xs = xs"
  by (cases xs) auto

lemma py_int_digits:
  assumes "ds \<noteq> []" "list_all is_digit ds" "length ds \<le> int_max_str_digits"
  shows "py_int ds = Some (int (decimal ds))"
proof -
  have ns: "list_all (\<lambda>c. \<not> int_isspace c) ds"
    using assms(2) by (auto simp: list_all_iff digit_not_space)
  then have ns': "list_all (\<lambda>c. \<not> int_isspace c) (rev ds)"
    by (simp add: list_all_iff)
  have t: "rev (dropWhile int_isspace (rev (dropWhile int_isspace ds))) = ds"
    by (simp add: dropWhile_all_not [OF ns] dropWhile_all_not [OF ns'])
  have f: "filter is_digit ds = ds"
    using assms(2) by (simp add: list_all_iff)
  obtain c cs where ds: "ds = c # cs" using assms(1) by (cases ds) auto
  have c: "is_digit c" "list_all is_digit cs" using assms(2) ds by auto
  have u: "py_unsigned ds = Some (decimal ds)"
    using c by (simp add: ds py_digits_all decimal_def)
  show ?thesis
    unfolding py_int_def t Let_def f
    using assms(3) u digit_not_sign [OF c(1)] by (simp add: ds)
qed

section \<open>The detail fetcher never raises\<close>

lemma get_full_details_not_Inl [simp]: "get_full_details retrieval e \<noteq> Inl err"
  by (simp add: get_full_details_def split: sum.split)

text \<open>
  C9. Whatever identifier is asked for, \<^verbatim>\<open>get_full_details\<close> never leaves by an exception.
  When the remote call raises, and when the answer cannot be converted (a malformed
  response), it returns \<^verbatim>\<open>None\<close>; so the iteration of the driver that made the call ends
  without an exception, in the fallback.
\<close>

theorem get_full_details_failure_is_none:
  "get_full_details retrieval e \<noteq> Inl err \<and>
   (retrieval e = Inl err' \<longrightarrow> get_full_details retrieval e = Inr None) \<and>
   (retrieval e = Inr a \<and> full_record e a = Inl err' \<longrightarrow>
      get_full_details retrieval e = Inr None) \<and>
   (r_eid result = Some e \<longrightarrow> snd (loop_body retrieval st result) = None)"
  by (auto simp: get_full_details_def loop_body_def Let_def split: sum.split option.split)

theorem get_full_details_failure_is_none_witness:
  "no_retrieval (PyStr ''B'') = Inl Scopus404Error \<and>
   get_full_details no_retrieval (PyStr ''B'') = Inr None \<and>
   r_eid (stub ''B'') = Some (PyStr ''B'') \<and>
   snd (loop_body no_retrieval init_state (stub ''B'')) = None"
  using get_full_details_failure_is_none
    [of no_retrieval "PyStr ''B''" _ Scopus404Error _ "stub ''B''" init_state]
  by (simp add: no_retrieval_def stub_def)

subsection \<open>Keywords\<close>

lemma get_full_details_Some:
  "get_full_details retrieval e = Inr (Some r) \<longleftrightarrow>
     (\<exists>a. retrieval e = Inr a \<and> full_record e a = Inr r)"
  by (cases "retrieval e") (auto simp: get_full_details_def split: sum.splits)

lemma full_record_keywords:
  "full_record e a = Inr r \<Longrightarrow> full_keywords (a_authkeywords a) = Inr (keywords_list r)"
  by (auto simp: full_record_def py_bind_eq_Inr)

text \<open>
  C4 (as amended). When the full fetch succeeds and the raw keyword field is a non-empty
  string, the keywords of the record are the pieces of that string between the
  separators \<^verbatim>\<open>" | "\<close>, in order, each trimmed of surrounding whitespace: the pieces
  joined by the separator give the raw field back, the list is not empty, and no
  keyword starts or ends with whitespace. Empty pieces are kept as empty keywords.
\<close>

theorem keywords_are_trimmed_fragments:
  assumes "retrieval e = Inr a" and "a_authkeywords a = PyStr raw" and "raw \<noteq> []"
    and "get_full_details retrieval e = Inr (Some r)"
  shows "keywords_list r = map py_strip (py_split '' | '' raw) \<and>
         py_join '' | '' (py_split '' | '' raw) = raw \<and>
         keywords_list r \<noteq> [] \<and>
         list_all (\<lambda>k. py_strip k = k \<and>
                        (k = [] \<or> (\<not> py_isspace (hd k) \<and> \<not> py_isspace (last k))))
           (keywords_list r)"
proof -
  have "full_record e a = Inr r"
    using assms(1,4) by (simp add: get_full_details_Some)
  then have "full_keywords (PyStr raw) = Inr (keywords_list r)"
    using full_record_keywords assms(2) by metis
  then have k: "keywords_list r = map py_strip (py_split '' | '' raw)"
    using assms(3) by (simp add: full_keywords_def)
  have "list_all (\<lambda>k. py_strip k = k \<and>
                        (k = [] \<or> (\<not> py_isspace (hd k) \<and> \<not> py_isspace (last k))))
           (map py_strip xs)" for xs
    using py_strip_trimmed by (induction xs) (auto simp: py_strip_idem)
  then show ?thesis by (simp add: k join_py_split)
qed

theorem keywords_are_trimmed_fragments_witness:
  "sample_retrieval (PyStr ''A'') = Inr sample_abstract \<and>
   a_authkeywords sample_abstract = PyStr ''steel |  | alloys'' \<and>
   (\<exists>r. get_full_details sample_retrieval (PyStr ''A'') = Inr (Some r) \<and>
        keywords_list r = [''steel'', [], ''alloys''])"
proof -
  have a: "sample_retrieval (PyStr ''A'') = Inr sample_abstract"
    by (simp add: sample_retrieval_def)
  have k: "a_authkeywords sample_abstract = PyStr ''steel |  | alloys''"
    by (simp add: sample_abstract_def)
  have "\<exists>r. get_full_details sample_retrieval (PyStr ''A'') = Inr (Some r)"
  proof (cases "get_full_details sample_retrieval (PyStr ''A'')")
    case (Inl err)
    then show ?thesis by simp
  next
    case (Inr d)
    moreover have "get_full_details sample_retrieval (PyStr ''A'') \<noteq> Inr None" by code_simp
    ultimately show ?thesis by (cases d) auto
  qed
  then obtain r where r: "get_full_details sample_retrieval (PyStr ''A'') = Inr (Some r)"
    by blast
  have m: "map py_strip (py_split '' | '' ''steel |  | alloys'') = [''steel'', [], ''alloys'']"
    by code_simp
  have "keywords_list r = [''steel'', [], ''alloys'']"
    using keywords_are_trimmed_fragments [OF a k _ r] m by simp
  then show ?thesis using a k r by blast
qed

text \<open>The raw field \<^verbatim>\<open>"steel |  | alloys"\<close> has an empty piece in the middle, and the
  record keeps it: the list of keywords has the empty string as its second element.\<close>

theorem empty_keyword_counterexample:
  "a_authkeywords sample_abstract = PyStr ''steel |  | alloys'' \<and>
   map_sum id (map_option keywords_list) (get_full_details sample_retrieval (PyStr ''A''))
     = Inr (Some [''steel'', [], ''alloys''])"
  by code_simp

section \<open>The stub normalizer\<close>

lemma cover_year_str:
  "cover_year (PyStr s) = py_int_of (PyStr (takeWhile (\<lambda>c. c \<noteq> CHR ''-'') s))"
  by (simp add: cover_year_def py_split_char_hd)

lemma search_year_isl:
  "isl (search_year result) \<longleftrightarrow>
     (\<exists>n. r_coverDate result = Some (PyInt n) \<and> n \<noteq> 0) \<or>
     (\<exists>s. r_coverDate result = Some (PyStr s) \<and> s \<noteq> [] \<and>
          py_int (takeWhile (\<lambda>c. c \<noteq> CHR ''-'') s) = None)"
proof (cases "r_coverDate result")
  case None
  then show ?thesis by (simp add: search_year_def)
next
  case (Some v)
  show ?thesis
  proof (cases v)
    case PyNone
    with Some show ?thesis by (simp add: search_year_def)
  next
    case (PyStr s)
    with Some show ?thesis
      by (auto simp: search_year_def cover_year_str py_bind_isl split: option.splits)
  next
    case (PyInt n)
    with Some show ?thesis by (simp add: search_year_def cover_year_def py_bind_isl)
  qed
qed


lemma parse_author_name_Inr: "\<exists>a. parse_author_name fragment = Inr a"
proof -
  have "0 < length (py_split '','' (py_strip fragment))" by simp
  then show ?thesis
    by (simp add: parse_author_name_def Let_def py_index_def del: length_greater_0_conv)
qed


lemma search_record_isl:
  "isl (search_record result) \<longleftrightarrow>
     isl (search_year result) \<or> isl (search_citation_count result)
       \<or> isl (search_authors result)"
  by (cases "search_year result"; cases "search_citation_count result";
      cases "search_authors result") (simp_all add: search_record_def)

lemma extract_None_isl:
  "extract_from_search_result result = None \<longleftrightarrow> isl (search_record result)"
  by (simp add: extract_from_search_result_def split: sum.split)

lemma extract_Some_fields:
  assumes "extract_from_search_result result = Some r"
  shows "search_year result = Inr (year r)"
    and "search_authors result = Inr (authors r)"
    and "eid r = attr_or_none (r_eid result)"
    and "abstract r = PyNone"
    and "keywords_list r = []"
  using assms
  by (auto simp: extract_from_search_result_def search_record_def py_bind_eq_Inr
      split: sum.splits)




text \<open>
  C6 (as amended). For a result given to the stub normalizer: when the cover date is
  missing or false, a record that is produced has the year \<^verbatim>\<open>None\<close>; when it is a
  non-empty string, the year is the integer that the text before the first \<^verbatim>\<open>-\<close> writes
  (so the number written by four leading digits, when the date starts with four digits
  and a \<^verbatim>\<open>-\<close>), and when that text is no integer literal no record is produced at all:
  the function returns \<^verbatim>\<open>None\<close>.
\<close>

theorem year_from_cover_date:
  "(\<not> has_truthy (r_coverDate result) \<and> extract_from_search_result result = Some r
      \<longrightarrow> year r = None) \<and>
   (r_coverDate result = Some (PyStr s) \<and> s \<noteq> [] \<and>
    py_int (takeWhile (\<lambda>c. c \<noteq> CHR ''-'') s) = Some n \<and>
    extract_from_search_result result = Some r
      \<longrightarrow> year r = Some n) \<and>
   (r_coverDate result = Some (PyStr s) \<and> s \<noteq> [] \<and>
    py_int (takeWhile (\<lambda>c. c \<noteq> CHR ''-'') s) = None
      \<longrightarrow> extract_from_search_result result = None) \<and>
   (r_coverDate result = Some (PyStr (ds @ CHR ''-'' # rest)) \<and> length ds = 4 \<and>
    list_all is_digit ds \<and> extract_from_search_result result = Some r
      \<longrightarrow> year r = Some (int (decimal ds)))"
proof (intro conjI impI; (elim conjE)?)
  assume "\<not> has_truthy (r_coverDate result)" "extract_from_search_result result = Some r"
  then show "year r = None"
    using extract_Some_fields(1) [of result r] by (simp add: search_year_def)
next
  assume a: "r_coverDate result = Some (PyStr s)" "s \<noteq> []"
    "py_int (takeWhile (\<lambda>c. c \<noteq> CHR ''-'') s) = Some n"
    "extract_from_search_result result = Some r"
  then show "year r = Some n"
    using extract_Some_fields(1) [of result r]
    by (simp add: search_year_def cover_year_str)
next
  assume a: "r_coverDate result = Some (PyStr s)" "s \<noteq> []"
    "py_int (takeWhile (\<lambda>c. c \<noteq> CHR ''-'') s) = None"
  then show "extract_from_search_result result = None"
    by (simp add: extract_None_isl search_record_isl search_year_isl)
next
  assume a: "r_coverDate result = Some (PyStr (ds @ CHR ''-'' # rest))" "length ds = 4"
    "list_all is_digit ds" "extract_from_search_result result = Some r"
  have nd: "CHR ''-'' \<notin> set ds"
    using a(3) digit_not_sign by (auto simp: list_all_iff)
  then have tw: "takeWhile (\<lambda>c. c \<noteq> CHR ''-'') (ds @ CHR ''-'' # rest) = ds"
    by (induction ds) auto
  have "ds \<noteq> []" using a(2) by auto
  then have "py_int ds = Some (int (decimal ds))"
    using py_int_digits [of ds] a(2,3) by (simp add: int_max_str_digits_def)
  then show "year r = Some (int (decimal ds))"
    using extract_Some_fields(1) [of result r] a(1,4)
    by (simp add: search_year_def cover_year_str tw)
qed

theorem year_from_cover_date_witness:
  "(\<exists>r. extract_from_search_result (sample_results ! 1) = Some r \<and> year r = Some 2019) \<and>
   (\<exists>r. extract_from_search_result (sample_results ! 0) = Some r \<and> year r = None) \<and>
   extract_from_search_result (sample_results ! 2) = None"
proof -
  have "extract_from_search_result (sample_results ! 1) \<noteq> None" by code_simp
  then obtain r1 where r1: "extract_from_search_result (sample_results ! 1) = Some r1" by blast
  have c1: "r_coverDate (sample_results ! 1) = Some (PyStr (''2019'' @ CHR ''-'' # ''11-30''))"
    by (simp add: sample_results_def stub_def)
  have d: "decimal ''2019'' = 2019" by code_simp
  have 1: "year r1 = Some 2019"
    using year_from_cover_date [of "sample_results ! 1" r1 _ _ "''2019''" "''11-30''"] r1 c1 d
    by (simp add: is_digit_def)
  have "extract_from_search_result (sample_results ! 0) \<noteq> None" by code_simp
  then obtain r0 where r0: "extract_from_search_result (sample_results ! 0) = Some r0" by blast
  have c0: "\<not> has_truthy (r_coverDate (sample_results ! 0))"
    by (simp add: sample_results_def stub_def)
  have 0: "year r0 = None"
    using year_from_cover_date [of "sample_results ! 0" r0] r0 c0 by simp
  have c2: "r_coverDate (sample_results ! 2) = Some (PyStr ''abcd-01-01'')"
    by (simp add: sample_results_def stub_def)
  have p: "py_int (takeWhile (\<lambda>c. c \<noteq> CHR ''-'') ''abcd-01-01'') = None" by code_simp
  have 2: "extract_from_search_result (sample_results ! 2) = None"
    using year_from_cover_date [of "sample_results ! 2" _ "''abcd-01-01''"] c2 p by simp
  show ?thesis using r1 1 r0 0 2 by blast
qed

text \<open>The result \<^verbatim>\<open>C\<close> has its identifier and the cover date \<^verbatim>\<open>"abcd-01-01"\<close>: the
  normalizer returns \<^verbatim>\<open>None\<close>, not a record with the year \<^verbatim>\<open>None\<close>. The cover date
  \<^verbatim>\<open>"20-1-1"\<close>, whose leading component has two digits, gives the year 20.\<close>

theorem malformed_cover_date_counterexample:
  "r_eid (sample_results ! 2) = Some (PyStr ''C'') \<and>
   r_coverDate (sample_results ! 2) = Some (PyStr ''abcd-01-01'') \<and>
   extract_from_search_result (sample_results ! 2) = None \<and>
   map_option year (extract_from_search_result ((stub ''D'')\<lparr>r_coverDate := Some (PyStr ''20-1-1'')\<rparr>))
     = Some (Some 20)"
  by code_simp

lemma full_record_year:
  "full_record e a = Inr r \<Longrightarrow>
     (if truthy (a_coverDate a)
      then py_bind (cover_year (a_coverDate a)) (\<lambda>y. Inr (Some y))
      else Inr None) = Inr (year r)"
  by (auto simp: full_record_def py_bind_eq_Inr)

text \<open>The detail fetcher converts the cover date in the same way (line 219): a record it
  returns has the year that the text before the first \<^verbatim>\<open>-\<close> writes, and a cover date
  whose leading text is no integer literal makes it return \<^verbatim>\<open>None\<close>.\<close>

lemma full_details_year:
  assumes "retrieval e = Inr a" and "a_coverDate a = PyStr s" and "s \<noteq> []"
  shows "py_int (takeWhile (\<lambda>c. c \<noteq> CHR ''-'') s) = None
           \<Longrightarrow> get_full_details retrieval e = Inr None"
    and "get_full_details retrieval e = Inr (Some r)
           \<Longrightarrow> py_int (takeWhile (\<lambda>c. c \<noteq> CHR ''-'') s) = Some n \<Longrightarrow> year r = Some n"
proof -
  assume "py_int (takeWhile (\<lambda>c. c \<noteq> CHR ''-'') s) = None"
  then have "\<And>r. full_record e a \<noteq> Inr r"
    using full_record_year [of e a] assms(2,3) by (auto simp: cover_year_str)
  then show "get_full_details retrieval e = Inr None"
    using assms(1) by (cases "full_record e a") (auto simp: get_full_details_def)
next
  assume "get_full_details retrieval e = Inr (Some r)"
    and "py_int (takeWhile (\<lambda>c. c \<noteq> CHR ''-'') s) = Some n"
  then show "year r = Some n"
    using full_record_year [of e a r] assms by (auto simp: get_full_details_Some cover_year_str)
qed

subsection \<open>Authors\<close>

lemma parse_author_name_comma:
  assumes "py_strip fragment = a @ CHR '','' # b" "CHR '','' \<notin> set a"
  shows "parse_author_name fragment =
     Inr \<lparr>name = PyStr (py_strip fragment), surname = PyStr (py_strip a),
          given_name = PyStr (py_strip (takeWhile (\<lambda>c. c \<noteq> CHR '','') b)),
          author_id = PyNone, affiliation = PyNone\<rparr>"
proof -
  have in': "py_in '','' (py_strip fragment)"
    using assms(1) by (simp add: py_in_char)
  have sp: "py_split '','' (py_strip fragment) = a # py_split '','' b"
    using py_split_char_append [OF assms(2)] assms(1) by simp
  obtain rest where b: "py_split '','' b = takeWhile (\<lambda>c. c \<noteq> CHR '','') b # rest"
    by (simp add: py_split_def split_str_char [of _ "[]" b])
  show ?thesis
    using in' by (simp add: parse_author_name_def Let_def sp b py_index_def)
qed

lemma parse_author_name_plain:
  assumes "CHR '','' \<notin> set (py_strip fragment)"
  shows "parse_author_name fragment =
     Inr \<lparr>name = PyStr (py_strip fragment),
          surname = PyStr (if py_words (py_strip fragment) \<noteq> []
                           then last (py_words (py_strip fragment)) else py_strip fragment),
          given_name = PyStr (py_join '' '' (butlast (py_words (py_strip fragment)))),
          author_id = PyNone, affiliation = PyNone\<rparr>"
proof -
  have "\<not> py_in '','' (py_strip fragment)"
    using assms by (simp add: py_in_char)
  moreover have "\<not> 1 < length ws \<Longrightarrow> py_join '' '' (butlast ws) = []" for ws :: "string list"
    by (cases ws) auto
  ultimately show ?thesis
    by (auto simp: parse_author_name_def Let_def)
qed

lemma parse_author_name_fixed:
  "parse_author_name fragment = Inr a \<Longrightarrow>
     name a = PyStr (py_strip fragment) \<and> author_id a = PyNone \<and> affiliation a = PyNone"
proof -
  have "0 < length (py_split '','' (py_strip fragment))" by simp
  then show "parse_author_name fragment = Inr a \<Longrightarrow>
     name a = PyStr (py_strip fragment) \<and> author_id a = PyNone \<and> affiliation a = PyNone"
    by (auto simp: parse_author_name_def Let_def py_index_def simp del: length_greater_0_conv
        split: if_splits)
qed

lemma search_authors_nth:
  assumes "r_author_names result = Some (PyStr s)" and "s \<noteq> []"
    and "search_authors result = Inr as"
  shows "length as = length (py_split '';'' s)"
    and "i < length (py_split '';'' s) \<Longrightarrow> parse_author_name (py_split '';'' s ! i) = Inr (as ! i)"
proof -
  obtain ys where ys: "map_raise parse_author_name (py_split '';'' s) = Inr ys"
      "length ys = length (py_split '';'' s)"
      "\<forall>i < length (py_split '';'' s). parse_author_name (py_split '';'' s ! i) = Inr (ys ! i)"
    using map_raise_total [of parse_author_name, OF parse_author_name_Inr] by blast
  have "as = ys" using assms ys(1) by (simp add: search_authors_def)
  then show "length as = length (py_split '';'' s)"
    and "i < length (py_split '';'' s) \<Longrightarrow> parse_author_name (py_split '';'' s ! i) = Inr (as ! i)"
    using ys(2,3) by simp_all
qed

text \<open>
  C5 (as amended). The author names, a non-empty string, are cut at the semicolons, and
  the record has one author for each fragment, in order. With \<open>t\<close> the fragment trimmed
  of surrounding whitespace: the author's \<^verbatim>\<open>name\<close> is \<open>t\<close> (the trimmed fragment, not the
  original one); when \<open>t\<close> has a comma, the surname is the text before the first comma
  and the given name the text between the first comma and the second one (all of the
  rest when there is one comma only), both trimmed; when \<open>t\<close> has no comma, the surname
  is its last whitespace-delimited token and the given name the tokens before it,
  joined by single spaces; an empty \<open>t\<close> gives an empty surname and given name.
\<close>

theorem author_fragments_parsed:
  assumes "r_author_names result = Some (PyStr s)" and "s \<noteq> []"
    and "extract_from_search_result result = Some r"
    and "i < length (py_split '';'' s)"
  defines "t \<equiv> py_strip (py_split '';'' s ! i)"
  shows "length (authors r) = length (py_split '';'' s) \<and>
     name (authors r ! i) = PyStr t \<and>
     author_id (authors r ! i) = PyNone \<and> affiliation (authors r ! i) = PyNone \<and>
     (t = a @ CHR '','' # b \<and> CHR '','' \<notin> set a \<longrightarrow>
        surname (authors r ! i) = PyStr (py_strip a) \<and>
        given_name (authors r ! i) = PyStr (py_strip (takeWhile (\<lambda>c. c \<noteq> CHR '','') b))) \<and>
     (CHR '','' \<notin> set t \<and> py_words t \<noteq> [] \<longrightarrow>
        surname (authors r ! i) = PyStr (last (py_words t)) \<and>
        given_name (authors r ! i) = PyStr (py_join '' '' (butlast (py_words t)))) \<and>
     (t = [] \<longrightarrow> surname (authors r ! i) = PyStr [] \<and> given_name (authors r ! i) = PyStr [])"
proof -
  have sa: "search_authors result = Inr (authors r)"
    using extract_Some_fields(2) [OF assms(3)] .
  have len: "length (authors r) = length (py_split '';'' s)"
    using search_authors_nth(1) [OF assms(1,2) sa] .
  have p: "parse_author_name (py_split '';'' s ! i) = Inr (authors r ! i)"
    using search_authors_nth(2) [OF assms(1,2) sa assms(4)] .
  have fixed: "name (authors r ! i) = PyStr t \<and> author_id (authors r ! i) = PyNone \<and>
      affiliation (authors r ! i) = PyNone"
    using parse_author_name_fixed [OF p] by (simp add: t_def)
  have comma: "surname (authors r ! i) = PyStr (py_strip a) \<and>
        given_name (authors r ! i) = PyStr (py_strip (takeWhile (\<lambda>c. c \<noteq> CHR '','') b))"
    if "t = a @ CHR '','' # b" "CHR '','' \<notin> set a"
    using parse_author_name_comma [of "py_split '';'' s ! i" a b] that p by (auto simp: t_def)
  have plain: "surname (authors r ! i) = PyStr (last (py_words t)) \<and>
        given_name (authors r ! i) = PyStr (py_join '' '' (butlast (py_words t)))"
    if "CHR '','' \<notin> set t" "py_words t \<noteq> []"
    using parse_author_name_plain [of "py_split '';'' s ! i"] that p by (auto simp: t_def)
  have empty: "surname (authors r ! i) = PyStr [] \<and> given_name (authors r ! i) = PyStr []"
    if "t = []"
    using parse_author_name_plain [of "py_split '';'' s ! i"] that p
    by (auto simp: t_def py_words_def)
  show ?thesis using len fixed comma plain empty by blast
qed

theorem author_fragments_parsed_witness:
  "r_author_names (sample_results ! 1) = Some (PyStr ''Smith, J.; Doe, A.;Erik Bitzek'') \<and>
   (\<exists>r. extract_from_search_result (sample_results ! 1) = Some r \<and>
        length (authors r) = 3 \<and>
        name (authors r ! 1) = PyStr ''Doe, A.'' \<and>
        surname (authors r ! 1) = PyStr ''Doe'' \<and>
        given_name (authors r ! 1) = PyStr ''A.'' \<and>
        name (authors r ! 2) = PyStr ''Erik Bitzek'' \<and>
        surname (authors r ! 2) = PyStr ''Bitzek'' \<and>
        given_name (authors r ! 2) = PyStr ''Erik'')"
proof -
  let ?s = "''Smith, J.; Doe, A.;Erik Bitzek''"
  have n: "r_author_names (sample_results ! 1) = Some (PyStr ?s)"
    by (simp add: sample_results_def stub_def)
  have "extract_from_search_result (sample_results ! 1) \<noteq> None" by code_simp
  then obtain r where r: "extract_from_search_result (sample_results ! 1) = Some r" by blast
  have sp: "py_split '';'' ?s = [''Smith, J.'', '' Doe, A.'', ''Erik Bitzek'']"
    by code_simp
  have t1: "py_strip '' Doe, A.'' = ''Doe'' @ CHR '','' # '' A.''" by code_simp
  have g1: "py_strip (takeWhile (\<lambda>c. c \<noteq> CHR '','') '' A.'') = ''A.''" by code_simp
  have t2: "py_strip ''Erik Bitzek'' = ''Erik Bitzek''" by code_simp
  have w2: "py_words ''Erik Bitzek'' = [''Erik'', ''Bitzek'']" by code_simp
  have s1: "py_strip ''Doe'' = ''Doe''" by code_simp
  have 1: "length (authors r) = 3 \<and> name (authors r ! 1) = PyStr ''Doe, A.'' \<and>
        surname (authors r ! 1) = PyStr ''Doe'' \<and> given_name (authors r ! 1) = PyStr ''A.''"
    using author_fragments_parsed [OF n _ r, of 1 "''Doe''" "'' A.''"] t1 g1 s1
    by (simp add: sp)
  have 2: "name (authors r ! 2) = PyStr ''Erik Bitzek'' \<and>
        surname (authors r ! 2) = PyStr ''Bitzek'' \<and> given_name (authors r ! 2) = PyStr ''Erik''"
    using author_fragments_parsed [OF n _ r, of 2] t2 w2
    by (simp add: sp)
  show ?thesis using n r 1 2 by blast
qed

text \<open>The second fragment of \<^verbatim>\<open>"Smith, J.; Doe, A.;Erik Bitzek"\<close> starts with a space, and
  the author's \<^verbatim>\<open>name\<close> is without it. Of \<^verbatim>\<open>"King, M. L., Jr."\<close> the given name is
  \<^verbatim>\<open>"M. L."\<close>, not all of the part after the first comma.\<close>

theorem display_name_trimmed_counterexample:
  "r_author_names (sample_results ! 1) = Some (PyStr ''Smith, J.; Doe, A.;Erik Bitzek'') \<and>
   py_split '';'' ''Smith, J.; Doe, A.;Erik Bitzek'' ! 1 = '' Doe, A.'' \<and>
   map_option (map name \<circ> authors) (extract_from_search_result (sample_results ! 1))
     = Some [PyStr ''Smith, J.'', PyStr ''Doe, A.'', PyStr ''Erik Bitzek''] \<and>
   map_option (map given_name \<circ> authors)
     (extract_from_search_result ((stub ''E'')\<lparr>r_author_names := Some (PyStr ''King, M. L., Jr.'')\<rparr>))
     = Some [PyStr ''M. L.'']"
  by code_simp

section \<open>The driver's tally\<close>

lemma loop_body_raises:
  "loop_body retrieval st result = (st', Some err) \<Longrightarrow> r_eid result = None \<and> st' = st"
  by (auto simp: loop_body_def Let_def split: option.splits sum.splits)

lemma loop_body_requests:
  "loop_body retrieval st result = (st', None) \<Longrightarrow>
     \<exists>e. r_eid result = Some e \<and> requested st' = requested st @ [e]"
  by (auto simp: loop_body_def Let_def split: option.splits sum.splits)

lemma loop_body_tally_ok:
  "loop_body retrieval st result = (st', x) \<Longrightarrow> tally_ok st \<Longrightarrow> tally_ok st'"
  by (auto simp: loop_body_def Let_def tally_ok_def split: option.splits sum.splits)

lemma run_loop_tally_ok:
  "run_loop retrieval st rs = (st', x) \<Longrightarrow> tally_ok st \<Longrightarrow> tally_ok st'"
proof (induction rs arbitrary: st)
  case Nil
  then show ?case by simp
next
  case (Cons r rs)
  obtain st1 x1 where b: "loop_body retrieval st r = (st1, x1)"
    by (cases "loop_body retrieval st r")
  have ok1: "tally_ok st1" using loop_body_tally_ok [OF b Cons.prems(2)] .
  show ?case
  proof (cases x1)
    case None
    with Cons.prems(1) b have "run_loop retrieval st1 rs = (st', x)" by simp
    then show ?thesis using Cons.IH ok1 by blast
  next
    case (Some err)
    with Cons.prems(1) b have "st' = st1" by simp
    then show ?thesis using ok1 by simp
  qed
qed

text \<open>The identifiers requested are those of a leading part of the list, in order: of
  all of it when the loop runs to its end.\<close>

lemma run_loop_requested:
  "run_loop retrieval st rs = (st', x) \<Longrightarrow>
     \<exists>k \<le> length rs.
        requested st' = requested st @ map (attr_or_none \<circ> r_eid) (take k rs) \<and>
        (x = None \<longrightarrow> k = length rs)"
proof (induction rs arbitrary: st)
  case Nil
  then show ?case by simp
next
  case (Cons r rs)
  obtain st1 x1 where b: "loop_body retrieval st r = (st1, x1)"
    by (cases "loop_body retrieval st r")
  show ?case
  proof (cases x1)
    case None
    with Cons.prems b have run: "run_loop retrieval st1 rs = (st', x)" by simp
    from loop_body_requests [OF b [unfolded None]] obtain e where
      e: "r_eid r = Some e" "requested st1 = requested st @ [e]" by blast
    from Cons.IH [OF run] obtain k where
      k: "k \<le> length rs"
         "requested st' = requested st1 @ map (attr_or_none \<circ> r_eid) (take k rs)"
         "x = None \<longrightarrow> k = length rs" by blast
    have "requested st' = requested st @ map (attr_or_none \<circ> r_eid) (take (Suc k) (r # rs))"
      using e k(2) by simp
    then show ?thesis using k(1,3) by (intro exI [of _ "Suc k"]) simp
  next
    case (Some err)
    with Cons.prems b have "st' = st1" "x = Some err" by simp_all
    moreover have "st1 = st" using loop_body_raises b Some by blast
    ultimately show ?thesis by (intro exI [of _ 0]) simp
  qed
qed

text \<open>The loop runs to its end when every result has the attribute \<^verbatim>\<open>eid\<close>.\<close>

lemma run_loop_completes:
  "list_all (\<lambda>r. r_eid r \<noteq> None) rs \<Longrightarrow> \<exists>st'. run_loop retrieval st rs = (st', None)"
proof (induction rs arbitrary: st)
  case Nil
  then show ?case by simp
next
  case (Cons r rs)
  obtain st1 x1 where b: "loop_body retrieval st r = (st1, x1)"
    by (cases "loop_body retrieval st r")
  have "x1 = None"
    using loop_body_raises [of retrieval st r st1] b Cons.prems by (cases x1) auto
  then show ?case using b Cons by simp
qed

lemma tally_ok_init: "tally_ok init_state"
  by (simp add: tally_ok_def init_state_def)

lemma run_loop_end_has_eid:
  "run_loop retrieval st rs = (st', None) \<Longrightarrow> list_all (\<lambda>r. r_eid r \<noteq> None) rs"
proof (induction rs arbitrary: st)
  case Nil
  then show ?case by simp
next
  case (Cons r rs)
  obtain st1 x1 where b: "loop_body retrieval st r = (st1, x1)"
    by (cases "loop_body retrieval st r")
  show ?case
  proof (cases x1)
    case None
    then have "r_eid r \<noteq> None" using loop_body_requests b by blast
    moreover have "run_loop retrieval st1 rs = (st', None)"
      using Cons.prems b None by simp
    ultimately show ?thesis using Cons.IH by simp
  next
    case (Some err)
    then show ?thesis using Cons.prems b by simp
  qed
qed

text \<open>The driver reaches its tally exactly when the search gave results and each result
  left by the cap has the attribute \<^verbatim>\<open>eid\<close>.\<close>

lemma completed_iff:
  "completed (search_and_download search retrieval limit) \<longleftrightarrow>
     (\<exists>results. search = Inr results \<and> results \<noteq> [] \<and>
        list_all (\<lambda>r. r_eid r \<noteq> None) (apply_limit limit results))"
proof (cases search)
  case (Inl err)
  then show ?thesis by (simp add: search_and_download_def)
next
  case (Inr results)
  show ?thesis
  proof (cases "results = []")
    case True
    with Inr show ?thesis by (simp add: search_and_download_def)
  next
    case False
    let ?rs = "apply_limit limit results"
    obtain st x where run: "run_loop retrieval init_state ?rs = (st, x)"
      by (cases "run_loop retrieval init_state ?rs")
    have c: "completed (search_and_download search retrieval limit) \<longleftrightarrow> x = None"
      using Inr False run by (auto simp: search_and_download_def split: option.splits)
    have "x = None \<longleftrightarrow> list_all (\<lambda>r. r_eid r \<noteq> None) ?rs"
      using run_loop_end_has_eid [of retrieval init_state ?rs st]
        run_loop_completes [of ?rs retrieval init_state] run by auto
    with c Inr False show ?thesis by simp
  qed
qed

text \<open>
  C1. When the driver has processed the results of a search and printed its tally, the
  list it returns has \<open>full_details_count + search_only_count\<close> entries, and the three
  counters add up to the number of results attempted, which is the length of the list
  after the cap was applied; the requests made are those for exactly these results.
\<close>

theorem tally_accounts_for_every_stub:
  assumes "search = Inr results"
    and "completed (search_and_download search retrieval limit)"
  shows "length (returned (search_and_download search retrieval limit))
           = full_details_count (final (search_and_download search retrieval limit))
             + search_only_count (final (search_and_download search retrieval limit)) \<and>
         full_details_count (final (search_and_download search retrieval limit))
           + search_only_count (final (search_and_download search retrieval limit))
           + failed_count (final (search_and_download search retrieval limit))
           = length (apply_limit limit results) \<and>
         requested (final (search_and_download search retrieval limit))
           = map (attr_or_none \<circ> r_eid) (apply_limit limit results)"
proof -
  let ?rs = "apply_limit limit results"
  obtain st x where run: "run_loop retrieval init_state ?rs = (st, x)"
    by (cases "run_loop retrieval init_state ?rs")
  from assms have ne: "results \<noteq> []" and x: "x = None"
    using run by (auto simp: search_and_download_def split: if_splits option.splits)
  have out: "search_and_download search retrieval limit
      = \<lparr>returned = publications st, final = st, completed = True\<rparr>"
    using assms(1) ne run x by (simp add: search_and_download_def)
  have ok: "tally_ok st" using run_loop_tally_ok [OF run tally_ok_init] .
  have req: "requested st = map (attr_or_none \<circ> r_eid) ?rs"
    using run_loop_requested [OF run] x by (auto simp: init_state_def)
  show ?thesis using ok req by (simp add: out tally_ok_def)
qed

theorem tally_accounts_for_every_stub_witness:
  "completed (search_and_download (Inr sample_results) sample_retrieval None) \<and>
   length (returned (search_and_download (Inr sample_results) sample_retrieval None)) = 2 \<and>
   full_details_count (final (search_and_download (Inr sample_results) sample_retrieval None))
     = 1 \<and>
   search_only_count (final (search_and_download (Inr sample_results) sample_retrieval None))
     = 1 \<and>
   failed_count (final (search_and_download (Inr sample_results) sample_retrieval None)) = 1 \<and>
   length (apply_limit None sample_results) = 3"
proof -
  have c: "completed (search_and_download (Inr sample_results) sample_retrieval None)"
    by code_simp
  have f: "failed_count (final (search_and_download (Inr sample_results) sample_retrieval None))
      = 1"
    by code_simp
  have d: "full_details_count
      (final (search_and_download (Inr sample_results) sample_retrieval None)) = 1"
    by code_simp
  have n: "length (apply_limit None sample_results) = 3"
    by (simp add: apply_limit_def sample_results_def)
  show ?thesis
    using tally_accounts_for_every_stub [OF refl c] c f d n by simp
qed

subsection \<open>The cap\<close>

text \<open>
  C8 (as amended). With a positive cap \<open>n\<close> and more than \<open>n\<close> results, the list is cut
  to its first \<open>n\<close> entries before the loop: the identifiers requested are a leading part
  of those of the first \<open>n\<close> results, never more than \<open>n\<close>, and all \<open>n\<close> of them, in order,
  when the loop runs to its end, which it does when each of the \<open>n\<close> results has the
  attribute \<^verbatim>\<open>eid\<close>. A cap of 0 is no cap.
\<close>

theorem positive_cap_truncates_before_processing:
  assumes "0 < n" and "nat n < length results"
  shows "apply_limit (Some n) results = take (nat n) results \<and>
         prefix (requested (final (search_and_download (Inr results) retrieval (Some n))))
           (map (attr_or_none \<circ> r_eid) (take (nat n) results)) \<and>
         length (requested (final (search_and_download (Inr results) retrieval (Some n))))
           \<le> nat n \<and>
         (completed (search_and_download (Inr results) retrieval (Some n)) \<longrightarrow>
            requested (final (search_and_download (Inr results) retrieval (Some n)))
              = map (attr_or_none \<circ> r_eid) (take (nat n) results) \<and>
            length (requested (final (search_and_download (Inr results) retrieval (Some n))))
              = nat n) \<and>
         (list_all (\<lambda>r. r_eid r \<noteq> None) (take (nat n) results) \<longrightarrow>
            completed (search_and_download (Inr results) retrieval (Some n))) \<and>
         search_and_download (Inr results) retrieval (Some 0)
           = search_and_download (Inr results) retrieval None"
proof -
  let ?rs = "take (nat n) results"
  let ?out = "search_and_download (Inr results) retrieval (Some n)"
  have lim: "apply_limit (Some n) results = ?rs"
    using assms(1) by (simp add: apply_limit_def py_slice_to_def)
  have ne: "results \<noteq> []" using assms(2) by auto
  have len: "length ?rs = nat n" using assms(2) by simp
  obtain st x where run: "run_loop retrieval init_state ?rs = (st, x)"
    by (cases "run_loop retrieval init_state ?rs")
  have fin: "final ?out = st" and comp: "completed ?out \<longleftrightarrow> x = None"
    using ne run by (auto simp: search_and_download_def lim split: option.splits)
  have r0: "requested init_state = []" by (simp add: init_state_def)
  from run_loop_requested [OF run, unfolded r0 append_Nil] obtain k where
    k: "k \<le> length ?rs" "requested st = map (attr_or_none \<circ> r_eid) (take k ?rs)"
       "x = None \<longrightarrow> k = length ?rs"
    by blast
  have pre: "prefix (requested st) (map (attr_or_none \<circ> r_eid) ?rs)"
    unfolding k(2) by (intro map_mono_prefix take_is_prefix)
  have le: "length (requested st) \<le> nat n"
    using k(1,2) len by simp
  have full: "requested st = map (attr_or_none \<circ> r_eid) ?rs \<and> length (requested st) = nat n"
    if "x = None"
    using that k len by simp
  have tot: "x = None" if "list_all (\<lambda>r. r_eid r \<noteq> None) ?rs"
    using run_loop_completes [OF that, of retrieval init_state] run by auto
  have zero: "search_and_download (Inr results) retrieval (Some 0)
           = search_and_download (Inr results) retrieval None"
    by (simp add: search_and_download_def apply_limit_def)
  show ?thesis
    unfolding fin comp using lim pre le full tot zero by blast
qed

theorem positive_cap_truncates_before_processing_witness:
  "(0::int) < 2 \<and> nat 2 < length sample_results \<and>
   apply_limit (Some 2) sample_results = take 2 sample_results \<and>
   completed (search_and_download (Inr sample_results) sample_retrieval (Some 2)) \<and>
   requested (final (search_and_download (Inr sample_results) sample_retrieval (Some 2)))
     = [PyStr ''A'', PyStr ''B'']"
proof -
  have l: "nat 2 < length sample_results" by (simp add: sample_results_def)
  have a: "list_all (\<lambda>r. r_eid r \<noteq> None) (take (nat 2) sample_results)"
    by (simp add: sample_results_def stub_def)
  have m: "map (attr_or_none \<circ> r_eid) (take (nat 2) sample_results) = [PyStr ''A'', PyStr ''B'']"
    by (simp add: sample_results_def stub_def)
  show ?thesis
    using positive_cap_truncates_before_processing [of 2 sample_results sample_retrieval] l a m
    by simp
qed

text \<open>With the cap 0 and three results, all three identifiers are requested.\<close>

theorem cap_zero_attempts_all_counterexample:
  "0 < length sample_results \<and>
   requested (final (search_and_download (Inr sample_results) no_retrieval (Some 0)))
     = [PyStr ''A'', PyStr ''B'', PyStr ''C''] \<and>
   length (requested (final (search_and_download (Inr sample_results) no_retrieval (Some 0))))
     \<noteq> 0"
  by code_simp

section \<open>The summary\<close>

text \<open>
  C2. On a file with no publication, \<^verbatim>\<open>print_summary\<close> does not report 0%: the first
  completeness line divides by the number of publications and the function ends in
  \<^verbatim>\<open>ZeroDivisionError\<close>.
\<close>

theorem print_summary_empty_raises:
  "print_summary \<lparr>data_metadata = md, data_publications = []\<rparr> = Inl ZeroDivisionError"
  by (simp add: print_summary_def citation_block_def citations_of_def py_truediv_def)

lemma citation_block_returns: "\<exists>cb. citation_block cs = Inr cb"
  by (simp add: citation_block_def py_truediv_def py_index_def)

text \<open>\<^verbatim>\<open>print_summary\<close> raises on the empty list of publications and on no other.\<close>

lemma print_summary_raises_iff:
  "isl (print_summary d) \<longleftrightarrow> data_publications d = []"
proof -
  obtain cb where cb: "citation_block (citations_of (data_publications d)) = Inr cb"
    using citation_block_returns by blast
  show ?thesis
    by (simp add: print_summary_def Let_def cb py_truediv_def)
qed

subsection \<open>The median\<close>







section \<open>The BibTeX export\<close>

lemma bibtex_entries_nth:
  "bibtex_entries i pubs = Inr out \<Longrightarrow>
     length out = length pubs \<and>
     (\<forall>j < length pubs. bibtex_entry (i + j) (pubs ! j) = Inr (out ! j))"
proof (induction pubs arbitrary: i out)
  case Nil
  then show ?case by simp
next
  case (Cons p ps)
  from Cons.prems obtain b bs where b: "bibtex_entry i p = Inr b"
      "bibtex_entries (Suc i) ps = Inr bs" "out = b # bs"
    by (auto simp: py_bind_eq_Inr)
  from Cons.IH [OF b(2)] have ih: "length bs = length ps"
      "\<forall>j < length ps. bibtex_entry (Suc i + j) (ps ! j) = Inr (bs ! j)" by simp_all
  have "\<forall>j < length (p # ps). bibtex_entry (i + j) ((p # ps) ! j) = Inr ((b # bs) ! j)"
    using b(1) ih(2) by (auto simp: nth_Cons split: nat.split)
  then show ?case using ih(1) b(3) by simp
qed

lemma pub_entry_type_range:
  assumes "pub_entry_type pub = Inr et"
  shows "et = ''inproceedings'' \<or> et = ''book'' \<or> et = ''article''"
proof -
  obtain doc_type where "et = (if py_in ''conference'' doc_type then ''inproceedings''
          else if py_in ''book'' doc_type then ''book'' else ''article'')"
    using assms unfolding pub_entry_type_def py_bind_eq_Inr by blast
  then show ?thesis
    by (cases "py_in ''conference'' doc_type"; cases "py_in ''book'' doc_type")
      (simp_all only: if_True if_False simp_thms)
qed

lemma bibtex_entry_unknown:
  assumes "bibtex_entry k pub = Inr b" and "authors pub = []"
  shows "\<exists>et rest. pub_entry_type pub = Inr et \<and>
           b = ''@'' @ et @ ''{'' @ ''Unknown''
               @ (case year pub of None \<Rightarrow> ''nd''
                  | Some y \<Rightarrow> if y \<noteq> 0 then show_int y else ''nd'')
               @ show_nat k @ '','' @ [CHR 0x0A] @ rest"
proof (cases "pub_entry_type pub")
  case (Inl err)
  then have "bibtex_entry k pub = Inl err" by (simp add: bibtex_entry_def)
  with assms(1) show ?thesis by simp
next
  case (Inr et)
  define yr where "yr = (case year pub of None \<Rightarrow> ''nd''
                  | Some y \<Rightarrow> if y \<noteq> 0 then show_int y else ''nd'')"
  define rest where "rest = field_line ''title'' (title pub)
          @ field_line ''journal'' (journal pub)
          @ (case year pub of
               None \<Rightarrow> []
             | Some y \<Rightarrow> field_line ''year'' (PyInt y))
          @ field_line ''volume'' (volume pub)
          @ field_line ''number'' (issue pub)
          @ field_line ''pages'' (pages pub)
          @ field_line ''doi'' (doi pub)
          @ ''}'' @ [CHR 0x0A]"
  have key: "citation_key pub = ''Unknown'' @ yr"
    by (simp add: citation_key_def assms(2) yr_def)
  have "bibtex_entry k pub
      = Inr (''@'' @ et @ ''{'' @ citation_key pub @ show_nat k @ '','' @ [CHR 0x0A] @ rest)"
    by (simp add: bibtex_entry_def Inr assms(2) rest_def)
  then have "b = ''@'' @ et @ ''{'' @ ''Unknown'' @ yr @ show_nat k @ '','' @ [CHR 0x0A] @ rest"
    using assms(1) by (simp add: key)
  then show ?thesis using Inr unfolding yr_def by blast
qed

text \<open>
  C10. When the export runs to its end, it has one entry for each publication, at the
  publication's position; for a publication without authors the entry starts with
  \<^verbatim>\<open>@\<close>, the entry type, \<^verbatim>\<open>{\<close>, then the key: \<^verbatim>\<open>Unknown\<close>, the year (\<^verbatim>\<open>nd\<close> when the year
  is \<^verbatim>\<open>null\<close> or 0), and the 1-based position.
\<close>

theorem unknown_author_key:
  assumes "export_bibtex pubs = Inr out" and "j < length pubs" and "authors (pubs ! j) = []"
  shows "length out = length pubs \<and>
         (\<exists>et rest. (et = ''inproceedings'' \<or> et = ''book'' \<or> et = ''article'') \<and>
            out ! j = ''@'' @ et @ ''{'' @ ''Unknown''
               @ (case year (pubs ! j) of None \<Rightarrow> ''nd''
                  | Some y \<Rightarrow> if y \<noteq> 0 then show_int y else ''nd'')
               @ show_nat (j + 1) @ '','' @ [CHR 0x0A] @ rest)"
proof -
  have n: "length out = length pubs"
    and e: "bibtex_entry (j + 1) (pubs ! j) = Inr (out ! j)"
    using bibtex_entries_nth [of 1 pubs out] assms(1,2) by (auto simp: export_bibtex_def)
  from bibtex_entry_unknown [OF e assms(3)] obtain et rest where
    et: "pub_entry_type (pubs ! j) = Inr et" and
    o: "out ! j = ''@'' @ et @ ''{'' @ ''Unknown''
               @ (case year (pubs ! j) of None \<Rightarrow> ''nd''
                  | Some y \<Rightarrow> if y \<noteq> 0 then show_int y else ''nd'')
               @ show_nat (j + 1) @ '','' @ [CHR 0x0A] @ rest"
    by blast
  show ?thesis
    using n pub_entry_type_range [OF et] o by blast
qed

theorem unknown_author_key_witness:
  "authors (sample_pubs ! 0) = [] \<and> authors (sample_pubs ! 1) = [] \<and>
   (\<exists>out. export_bibtex sample_pubs = Inr out \<and> length out = 2 \<and>
      prefix ''@article{Unknownnd1,'' (out ! 0) \<and>
      prefix ''@inproceedings{Unknown20202,'' (out ! 1))"
proof -
  have e: "export_bibtex sample_pubs =
      Inr [''@article{Unknownnd1,'' @ [CHR 0x0A] @ ''}'' @ [CHR 0x0A],
           ''@inproceedings{Unknown20202,'' @ [CHR 0x0A] @ ''  year = {2020},'' @ [CHR 0x0A]
             @ ''}'' @ [CHR 0x0A]]"
    by code_simp
  have a: "authors (sample_pubs ! 0) = []" "authors (sample_pubs ! 1) = []"
    by (simp_all add: sample_pubs_def pub_cited_def)
  have l: "(0::nat) < length sample_pubs" "1 < length sample_pubs"
    by (simp_all add: sample_pubs_def)
  have "length [''@article{Unknownnd1,'' @ [CHR 0x0A] @ ''}'' @ [CHR 0x0A],
           ''@inproceedings{Unknown20202,'' @ [CHR 0x0A] @ ''  year = {2020},'' @ [CHR 0x0A]
             @ ''}'' @ [CHR 0x0A]] = length sample_pubs"
    using unknown_author_key [OF e l(1) a(1)] unknown_author_key [OF e l(2) a(2)] by blast
  then show ?thesis using e a by (simp add: sample_pubs_def)
qed

lemma map_raise_str_item:
  "list_all (\<lambda>a. case name a of PyStr s \<Rightarrow> True | _ \<Rightarrow> False) as \<Longrightarrow>
     \<exists>ns. map_raise (\<lambda>a. str_item (name a)) as = Inr ns"
proof (induction as)
  case Nil
  then show ?case by simp
next
  case (Cons a as)
  then obtain ns where "map_raise (\<lambda>a. str_item (name a)) as = Inr ns" by auto
  moreover obtain s where "name a = PyStr s" using Cons.prems by (cases "name a") auto
  ultimately show ?case by simp
qed

lemma bibtex_entry_total:
  assumes "exportable pub"
  shows "\<exists>b. bibtex_entry k pub = Inr b"
proof -
  obtain ns where ns: "map_raise (\<lambda>a. str_item (name a)) (authors pub) = Inr ns"
    using map_raise_str_item assms by (auto simp: exportable_def)
  have "\<exists>dt. (if truthy (document_type pub) then lower_of (document_type pub)
              else Inr ''article'') = Inr dt"
    using assms by (cases "document_type pub") (simp_all add: exportable_def)
  then obtain et where et: "pub_entry_type pub = Inr et"
    unfolding pub_entry_type_def py_bind_eq_Inr by blast
  show ?thesis
    by (cases "authors pub = []") (simp_all add: bibtex_entry_def et ns)
qed

lemma bibtex_entries_total:
  "list_all exportable pubs \<Longrightarrow> \<exists>out. bibtex_entries k pubs = Inr out"
proof (induction pubs arbitrary: k)
  case Nil
  then show ?case by simp
next
  case (Cons p ps)
  then obtain out where "bibtex_entries (Suc k) ps = Inr out" by auto
  moreover obtain b where "bibtex_entry k p = Inr b"
    using bibtex_entry_total Cons.prems by auto
  ultimately show ?case by simp
qed

end
